theory Spec2Isabelle
  imports Main "HOL-Library.Multiset"
begin

section \<open>Strings\<close>

text \<open>
  Go strings are byte sequences; they are modelled as \<open>string\<close> (a list of 8-bit
  characters). The helpers below are the functions of package \<open>strings\<close> that the
  scraper calls.
\<close>

definition nl :: char where
  "nl = CHR 0x0A"

definition HasPrefix :: "string \<Rightarrow> string \<Rightarrow> bool" where
  "HasPrefix s p = (take (length p) s = p)"

definition TrimPrefix :: "string \<Rightarrow> string \<Rightarrow> string" where
  "TrimPrefix s p = (if HasPrefix s p then drop (length p) s else s)"

primrec Contains :: "string \<Rightarrow> string \<Rightarrow> bool" where
  "Contains [] sub = (sub = [])"
| "Contains (c # cs) sub = (HasPrefix (c # cs) sub \<or> Contains cs sub)"

text \<open>
  \<open>strings.TrimSpace\<close> removes leading and trailing Unicode white space. The white
  space code points are listed here by their UTF-8 encodings: the six ASCII ones, U+0085,
  U+00A0, U+1680, U+2000 to U+200A, U+2028, U+2029, U+202F, U+205F and U+3000.
\<close>

definition spaceRunes :: "string list" where
  "spaceRunes =
    [[CHR 0x09], [CHR 0x0A], [CHR 0x0B], [CHR 0x0C], [CHR 0x0D], [CHR 0x20],
     [CHR 0xC2, CHR 0x85], [CHR 0xC2, CHR 0xA0],
     [CHR 0xE1, CHR 0x9A, CHR 0x80],
     [CHR 0xE2, CHR 0x80, CHR 0x80], [CHR 0xE2, CHR 0x80, CHR 0x81],
     [CHR 0xE2, CHR 0x80, CHR 0x82], [CHR 0xE2, CHR 0x80, CHR 0x83],
     [CHR 0xE2, CHR 0x80, CHR 0x84], [CHR 0xE2, CHR 0x80, CHR 0x85],
     [CHR 0xE2, CHR 0x80, CHR 0x86], [CHR 0xE2, CHR 0x80, CHR 0x87],
     [CHR 0xE2, CHR 0x80, CHR 0x88], [CHR 0xE2, CHR 0x80, CHR 0x89],
     [CHR 0xE2, CHR 0x80, CHR 0x8A],
     [CHR 0xE2, CHR 0x80, CHR 0xA8], [CHR 0xE2, CHR 0x80, CHR 0xA9],
     [CHR 0xE2, CHR 0x80, CHR 0xAF],
     [CHR 0xE2, CHR 0x81, CHR 0x9F], [CHR 0xE3, CHR 0x80, CHR 0x80]]"

text \<open>
  \<open>runeLen toks s\<close> is the width of the first of \<open>toks\<close> that \<open>s\<close> starts with, and
  0 when it starts with none.
\<close>

definition runeLen :: "string list \<Rightarrow> string \<Rightarrow> nat" where
  "runeLen toks s =
     (case find (\<lambda>t. take (length t) s = t) toks of Some t \<Rightarrow> length t | None \<Rightarrow> 0)"

lemma runeLen_le: "runeLen toks s \<le> length s"
proof (cases "find (\<lambda>t. take (length t) s = t) toks")
  case None
  then show ?thesis by (simp add: runeLen_def)
next
  case (Some t)
  then have "take (length t) s = t" by (auto simp: find_Some_iff)
  then have "length (take (length t) s) = length t" by simp
  then have "length t \<le> length s" by simp
  with Some show ?thesis by (simp add: runeLen_def)
qed

function trimLeftBy :: "string list \<Rightarrow> string \<Rightarrow> string" where
  "trimLeftBy toks s =
     (if runeLen toks s = 0 then s else trimLeftBy toks (drop (runeLen toks s) s))"
  by pat_completeness auto
termination
proof (relation "measure (\<lambda>(toks, s). length s)")
  show "wf (measure (\<lambda>(toks, s). length s))" by simp
next
  fix toks :: "string list" and s :: string
  assume "runeLen toks s \<noteq> 0"
  moreover have "runeLen toks s \<le> length s" by (rule runeLen_le)
  ultimately show "((toks, drop (runeLen toks s) s), (toks, s)) \<in> measure (\<lambda>(toks, s). length s)"
    by simp
qed

declare trimLeftBy.simps [simp del]

text \<open>
  The trailing white space is removed the same way on the reversed string, with the
  encodings reversed.
\<close>

definition TrimSpace :: "string \<Rightarrow> string" where
  "TrimSpace s = rev (trimLeftBy (map rev spaceRunes) (rev (trimLeftBy spaceRunes s)))"

section \<open>Regular expressions\<close>

text \<open>
  The cleanup passes are Go \<open>regexp\<close> patterns. The patterns are kept as syntax trees
  and run by a backtracking matcher that lists the ends of all matches from a position in
  the order of preference of Go's leftmost-first semantics: the left branch of an
  alternation before the right one, a greedy star its longest run first, a lazy star its
  shortest. All literals of the patterns are ASCII, so a match can only end on a rune
  boundary and matching byte by byte agrees with matching rune by rune.

  A position is the byte before it (\<open>None\<close> at the start of the text) and the text that
  remains.
\<close>

datatype regex =
    Lit string
  | AnyChar
  | NotNL
  | Digit
  | Space
  | Cat regex regex
  | Alt regex regex
  | Star regex
  | StarLazy regex
  | BeginLine
  | BeginText
  | EndText

type_synonym pos = "char option \<times> string"

primrec lit :: "string \<Rightarrow> pos \<Rightarrow> pos list" where
  "lit [] p = [p]"
| "lit (c # cs) p =
     (case snd p of
        [] \<Rightarrow> []
      | d # ds \<Rightarrow> if c = d then lit cs (Some d, ds) else [])"

definition oneOf :: "(char \<Rightarrow> bool) \<Rightarrow> pos \<Rightarrow> pos list" where
  "oneOf P p =
     (case snd p of
        [] \<Rightarrow> []
      | d # ds \<Rightarrow> if P d then [(Some d, ds)] else [])"

definition isDigit :: "char \<Rightarrow> bool" where
  "isDigit c = (c \<in> set ''0123456789'')"

definition isReSpace :: "char \<Rightarrow> bool" where
  "isReSpace c = (c \<in> set [CHR 0x09, CHR 0x0A, CHR 0x0C, CHR 0x0D, CHR 0x20])"

text \<open>
  The stars iterate their body at most once per remaining byte, and only through
  iterations that consume something.
\<close>

primrec star_greedy :: "(pos \<Rightarrow> pos list) \<Rightarrow> nat \<Rightarrow> pos \<Rightarrow> pos list" where
  "star_greedy f 0 p = [p]"
| "star_greedy f (Suc n) p =
     concat (map (\<lambda>q. if length (snd q) < length (snd p) then star_greedy f n q else [])
        (f p)) @ [p]"

primrec star_lazy :: "(pos \<Rightarrow> pos list) \<Rightarrow> nat \<Rightarrow> pos \<Rightarrow> pos list" where
  "star_lazy f 0 p = [p]"
| "star_lazy f (Suc n) p =
     p # concat (map (\<lambda>q. if length (snd q) < length (snd p) then star_lazy f n q else [])
        (f p))"

primrec matches :: "regex \<Rightarrow> pos \<Rightarrow> pos list" where
  "matches (Lit s) p = lit s p"
| "matches AnyChar p = oneOf (\<lambda>c. True) p"
| "matches NotNL p = oneOf (\<lambda>c. c \<noteq> nl) p"
| "matches Digit p = oneOf isDigit p"
| "matches Space p = oneOf isReSpace p"
| "matches (Cat r1 r2) p = concat (map (matches r2) (matches r1 p))"
| "matches (Alt r1 r2) p = matches r1 p @ matches r2 p"
| "matches (Star r) p = star_greedy (matches r) (length (snd p)) p"
| "matches (StarLazy r) p = star_lazy (matches r) (length (snd p)) p"
| "matches BeginLine p = (if fst p = None \<or> fst p = Some nl then [p] else [])"
| "matches BeginText p = (if fst p = None then [p] else [])"
| "matches EndText p = (if snd p = [] then [p] else [])"

text \<open>
  \<open>ReplaceAllString\<close> scans the text from the left; at each position the preferred match
  is replaced and the scan goes on behind it, otherwise one byte is copied. No pattern of
  the scraper matches the empty string; a match that consumes nothing is treated as no
  match. The replacement texts of the scraper contain no \<open>$\<close>, so they are inserted as
  they are.
\<close>

function replaceAll :: "regex \<Rightarrow> string \<Rightarrow> pos \<Rightarrow> string" where
  "replaceAll re repl p =
     (case (case matches re p of
              [] \<Rightarrow> None
            | q # _ \<Rightarrow> if length (snd q) < length (snd p) then Some q else None) of
        Some q \<Rightarrow> repl @ replaceAll re repl q
      | None \<Rightarrow>
          (case snd p of
             [] \<Rightarrow> []
           | c # cs \<Rightarrow> c # replaceAll re repl (Some c, cs)))"
  by pat_completeness auto
termination
  by (relation "measure (\<lambda>(re, repl, p). length (snd p))")
     (auto split: list.splits if_splits)

declare replaceAll.simps [simp del]

definition ReplaceAllString :: "regex \<Rightarrow> string \<Rightarrow> string \<Rightarrow> string" where
  "ReplaceAllString re src repl = replaceAll re repl (None, src)"

text \<open>\<open>MatchString\<close> reports whether the pattern matches anywhere in the text.\<close>

primrec searchFrom :: "regex \<Rightarrow> char option \<Rightarrow> string \<Rightarrow> bool" where
  "searchFrom re prev [] = (matches re (prev, []) \<noteq> [])"
| "searchFrom re prev (c # cs) =
     (matches re (prev, c # cs) \<noteq> [] \<or> searchFrom re (Some c) cs)"

definition MatchString :: "regex \<Rightarrow> string \<Rightarrow> bool" where
  "MatchString re s = searchFrom re None s"

text \<open>Derived forms: \<open>e+\<close> is \<open>ee*\<close>, and \<open>e?\<close> prefers \<open>e\<close> to nothing.\<close>

definition rplus :: "regex \<Rightarrow> regex" where
  "rplus r = Cat r (Star r)"

definition ropt :: "regex \<Rightarrow> regex" where
  "ropt r = Alt r (Lit [])"

subsection \<open>The precompiled cleanup patterns\<close>

definition monthName :: regex where
  "monthName =
     Alt (Lit ''January'') (Alt (Lit ''February'') (Alt (Lit ''March'') (Alt (Lit ''April'')
    (Alt (Lit ''May'') (Alt (Lit ''June'') (Alt (Lit ''July'') (Alt (Lit ''August'')
    (Alt (Lit ''September'') (Alt (Lit ''October'') (Alt (Lit ''November'')
    (Lit ''December'')))))))))))"

text \<open>The shared body of \<open>reDateLine\<close> and \<open>reDateText\<close>: month, day of one or two
  digits, comma, year of four digits.\<close>

definition longDate :: regex where
  "longDate =
     Cat monthName (Cat (Lit '' '') (Cat Digit (Cat (ropt Digit) (Cat (Lit '', '')
       (Cat Digit (Cat Digit (Cat Digit Digit)))))))"

definition reBreadcrumb :: regex where
  "reBreadcrumb = Cat BeginLine (Cat (Lit ''[All Articles](/unchained)'') (rplus (Lit [nl])))"

definition reDateLine :: regex where
  "reDateLine = Cat BeginLine (Cat longDate (rplus (Lit [nl])))"

definition reShareFooter :: regex where
  "reShareFooter = Cat (Lit (nl # ''Share this article'')) (Cat (Star AnyChar) EndText)"

definition reRelated :: regex where
  "reRelated = Cat (Lit (nl # ''Related articles'' @ [nl])) (Cat (Star AnyChar) EndText)"

definition reWantMore :: regex where
  "reWantMore =
     Cat (Lit (nl # ''## Want to learn more about Chainguard?'')) (Cat (Star AnyChar) EndText)"

definition reCGCta :: regex where
  "reCGCta =
     Cat (Lit (nl # ''Chainguard provides a secure foundation''))
       (Cat (StarLazy AnyChar) (Cat (Lit ''[Get in touch]'') (Cat (Star NotNL) (Lit [nl]))))"

definition reReadyStart :: regex where
  "reReadyStart = Cat (Lit (nl # ''_Ready to get started'')) (Cat (Star NotNL) (Lit [nl]))"

definition reNextImage :: regex where
  "reNextImage =
     Cat BeginLine (Cat (Lit ''![](/_next/image?url='')
       (Cat (Star NotNL) (Cat (Lit '')'') (Lit [nl]))))"

definition reExcessBlanks :: regex where
  "reExcessBlanks = Cat (Lit [nl]) (Cat (Lit [nl]) (rplus (Lit [nl])))"

definition reDateText :: regex where
  "reDateText = Cat BeginText (Cat longDate EndText)"

text \<open>
  The duplicate-heading pattern is compiled per call from
  \<open>(?m)^# \<close>, the title quoted by \<open>regexp.QuoteMeta\<close>, and \<open>\s*\n+\<close>; a quoted text
  matches itself literally.
\<close>

definition reH1 :: "string \<Rightarrow> regex" where
  "reH1 title =
     Cat BeginLine (Cat (Lit ''# '') (Cat (Lit title) (Cat (Star Space) (rplus (Lit [nl])))))"

section \<open>Cleanup\<close>

definition cleanMarkdown :: "string \<Rightarrow> string \<Rightarrow> string" where
  "cleanMarkdown raw title =
    (let s = raw;
         s = ReplaceAllString reBreadcrumb s [];
         s = ReplaceAllString reDateLine s [];
         s = ReplaceAllString (reH1 title) s [];
         s = ReplaceAllString reShareFooter s [];
         s = ReplaceAllString reRelated s [];
         s = ReplaceAllString reWantMore s [];
         s = ReplaceAllString reCGCta s [];
         s = ReplaceAllString reReadyStart s [];
         s = ReplaceAllString reNextImage s [];
         s = ReplaceAllString reExcessBlanks s [nl, nl]
     in TrimSpace s)"

section \<open>Data model\<close>

text \<open>
  The structs of the scraper. A \<open>blogPost\<close> is an article reference found on the
  listing; a \<open>checkpointEntry\<close> is what the checkpoint file keeps for a slug; the
  \<open>checkpoint\<close> is the Go map from slug to entry; a \<open>scrapeResult\<close> is the outcome of
  scraping one article, with \<open>err = None\<close> for Go's \<open>nil\<close>.
\<close>

record blogPost =
  Title :: string
  URL :: string
  Slug :: string

record checkpointEntry =
  ceTitle :: string
  ceURL :: string
  ceDate :: string
  ceScrapedAt :: string

type_synonym checkpoint = "string \<rightharpoonup> checkpointEntry"

datatype error =
    RequestError string
  | TransportError string
  | ReadError string
  | ParseError string
  | ConvertError string
  | PageError nat error

record scrapeResult =
  slug :: string
  title :: string
  url :: string
  date :: string
  markdown :: string
  err :: "error option"

section \<open>The outside world\<close>

text \<open>
  What the HTTP client does for a URL: building the request fails, the round trip fails,
  or a response arrives with a status code, the bytes read from its body and the error
  of reading them, if any.
\<close>

datatype httpOutcome =
    RequestFailed error
  | DoFailed error
  | Responded nat string "error option"

text \<open>
  A parsed page, as far as the scraper queries it through goquery:
  \<^item> \<open>anchors\<close>: the \<open>href\<close> and the text of every \<open>a\<close> element with an \<open>href\<close>, in
    document order;
  \<^item> \<open>nextButtons\<close>: for each \<open>button[aria-label="Go to next page"]\<close>, whether it
    carries the attribute \<open>disabled\<close>;
  \<^item> \<open>h1Texts\<close>: the text of each \<open>h1\<close>;
  \<^item> \<open>region sel\<close>: the inner HTML of the first element matching \<open>sel\<close> once its
    \<open>nav, header, footer, script, style\<close> descendants are removed, \<open>None\<close> when nothing
    matches; \<open>bodyHtml\<close> is the same for \<open>body\<close>;
  \<^item> \<open>timeEls\<close>: the \<open>datetime\<close> attribute (if any) and the text of each \<open>time\<close>
    element, and \<open>textNodes\<close>: the text of each \<open>p\<close>, \<open>div\<close> and \<open>span\<close>, in
    document order.
  The scraper removes elements from the page while it looks for the content; every field
  gives what the scraper reads at the time of its query.
\<close>

record document =
  anchors :: "(string \<times> string) list"
  nextButtons :: "bool list"
  h1Texts :: "string list"
  region :: "string \<Rightarrow> string option"
  bodyHtml :: string
  timeEls :: "(string option \<times> string) list"
  textNodes :: "string list"

text \<open>
  How \<open>os.WriteFile\<close> on the checkpoint file ends: it succeeds, it fails to open the
  file, or it fails after the file was opened (and truncated).
\<close>

datatype writeOutcome = WriteOK | OpenFails | WriteFails

text \<open>
  The world of one run: the network, the HTML parser, the HTML-to-Markdown converter, the
  order in which the workers' results arrive on the channel, and the outcomes of the file
  system calls (\<open>os.MkdirAll\<close>, \<open>os.WriteFile\<close> of the checkpoint, \<open>os.Create\<close> or
  \<open>os.OpenFile\<close> of the archive).
\<close>

record world =
  net :: "string \<Rightarrow> httpOutcome"
  parseDoc :: "string \<Rightarrow> error + document"
  convertMD :: "string \<Rightarrow> error + string"
  arrive :: "scrapeResult list \<Rightarrow> scrapeResult list"
  mkdirOK :: bool
  saveOutcome :: writeOutcome
  openOK :: bool

section \<open>HTTP\<close>

definition baseURL :: string where "baseURL = ''https://chainguard.dev''"
definition unchainedURL :: string where "unchainedURL = baseURL @ ''/unchained''"

definition fetchPage :: "world \<Rightarrow> string \<Rightarrow> string \<times> error option" where
  "fetchPage w u =
     (case net w u of
        RequestFailed e \<Rightarrow> ([], Some e)
      | DoFailed e \<Rightarrow> ([], Some e)
      | Responded status body rerr \<Rightarrow> (body, rerr))"

section \<open>Dates\<close>

text \<open>
  \<open>time.Parse("2006-01-02", v)\<close> accepts exactly four digits, a dash, two digits, a
  dash and two digits, with the month in 1..12 and the day valid for the month and year.
  \<open>Format("January 2, 2006")\<close> prints the month name, the day without padding and the
  year padded to four digits; it is applied to parsed dates only, whose month is in 1..12.
\<close>

definition digitVal :: "char \<Rightarrow> nat" where
  "digitVal c = of_char c - 48"

fun showNat :: "nat \<Rightarrow> string" where
  "showNat n = (if n < 10 then [''0123456789'' ! n] else showNat (n div 10) @ [''0123456789'' ! (n mod 10)])"

declare showNat.simps [simp del]

definition isLeap :: "nat \<Rightarrow> bool" where
  "isLeap y = (y mod 4 = 0 \<and> (y mod 100 \<noteq> 0 \<or> y mod 400 = 0))"

definition daysIn :: "nat \<Rightarrow> nat \<Rightarrow> nat" where
  "daysIn m y =
     (if m = 2 then (if isLeap y then 29 else 28)
      else if m \<in> {4, 6, 9, 11} then 30 else 31)"

definition parseISODate :: "string \<Rightarrow> (nat \<times> nat \<times> nat) option" where
  "parseISODate v =
     (case v of
        y1 # y2 # y3 # y4 # s1 # m1 # m2 # s2 # d1 # d2 # rest \<Rightarrow>
          if list_all isDigit [y1, y2, y3, y4, m1, m2, d1, d2] \<and> s1 = CHR ''-'' \<and> s2 = CHR ''-''
             \<and> rest = []
          then
            (let y = 1000 * digitVal y1 + 100 * digitVal y2 + 10 * digitVal y3 + digitVal y4;
                 m = 10 * digitVal m1 + digitVal m2;
                 d = 10 * digitVal d1 + digitVal d2
             in if m < 1 \<or> 12 < m then None
                else if d < 1 \<or> daysIn m y < d then None
                else Some (y, m, d))
          else None
      | _ \<Rightarrow> None)"

definition longMonths :: "string list" where
  "longMonths = [''January'', ''February'', ''March'', ''April'', ''May'', ''June'', ''July'',
     ''August'', ''September'', ''October'', ''November'', ''December'']"

definition formatLong :: "nat \<times> nat \<times> nat \<Rightarrow> string" where
  "formatLong t =
     (case t of (y, m, d) \<Rightarrow>
        longMonths ! (m - 1) @ '' '' @ showNat d @ '', ''
          @ replicate (4 - length (showNat y)) CHR ''0'' @ showNat y)"

section \<open>Scraping one article\<close>

definition firstText :: "string list \<Rightarrow> string" where
  "firstText ts = (case ts of [] \<Rightarrow> [] | t # _ \<Rightarrow> t)"

definition articleSelectors :: "string list" where
  "articleSelectors =
     [''article'', ''.post-content'', ''.blog-content'', ''.article-content'', ''main'',
      ''[role='' @ [CHR 0x22] @ ''main'' @ [CHR 0x22] @ '']'']"

primrec pickContent :: "document \<Rightarrow> string list \<Rightarrow> string" where
  "pickContent doc [] = []"
| "pickContent doc (sel # sels) =
     (case region doc sel of
        None \<Rightarrow> pickContent doc sels
      | Some h \<Rightarrow> if 100 < length h then h else pickContent doc sels)"

text \<open>
  The publish date: the first \<open>time\<close> element's \<open>datetime\<close> attribute, reformatted
  when it parses and kept as it is when it does not; the element's text when the
  attribute is missing or empty; and when that leaves nothing, the first paragraph, div
  or span whose trimmed text is a long-form date.
\<close>

definition resolveDate :: "document \<Rightarrow> string" where
  "resolveDate doc =
     (let d =
        (case timeEls doc of
           [] \<Rightarrow> []
         | (attr, text) # _ \<Rightarrow>
             (case attr of
                None \<Rightarrow> TrimSpace text
              | Some dt \<Rightarrow>
                  if dt \<noteq> [] then
                    (case parseISODate dt of
                       Some parsed \<Rightarrow> formatLong parsed
                     | None \<Rightarrow> dt)
                  else TrimSpace text))
      in if d = [] then
           (case find (\<lambda>t. MatchString reDateText (TrimSpace t)) (textNodes doc) of
              Some t \<Rightarrow> TrimSpace t
            | None \<Rightarrow> [])
         else d)"

definition errorResult :: "blogPost \<Rightarrow> error \<Rightarrow> scrapeResult" where
  "errorResult post e =
     \<lparr>slug = Slug post, title = [], url = [], date = [], markdown = [], err = Some e\<rparr>"

definition downloadAndConvertPost :: "world \<Rightarrow> blogPost \<Rightarrow> scrapeResult" where
  "downloadAndConvertPost w post =
     (case fetchPage w (URL post) of
        (html, Some e) \<Rightarrow> errorResult post e
      | (html, None) \<Rightarrow>
          (case parseDoc w html of
             Inl e \<Rightarrow> errorResult post e
           | Inr doc \<Rightarrow>
               (let h1 = TrimSpace (firstText (h1Texts doc));
                    ttl = (if h1 \<noteq> [] then h1 else Title post);
                    contentHTML = pickContent doc articleSelectors;
                    contentHTML = (if contentHTML = [] then bodyHtml doc else contentHTML);
                    dt = resolveDate doc
                in case convertMD w contentHTML of
                     Inl e \<Rightarrow> errorResult post e
                   | Inr rawMD \<Rightarrow>
                       \<lparr>slug = Slug post, title = ttl, url = URL post, date = dt,
                        markdown = cleanMarkdown rawMD ttl, err = None\<rparr>)))"

section \<open>Scraping all articles\<close>

text \<open>
  Every worker sends its result on the channel; the consumer keeps the results without
  error, keyed by slug. The results arrive in the order \<open>arrive w\<close> puts them in.
\<close>

definition keep :: "scrapeResult \<Rightarrow> (string \<rightharpoonup> scrapeResult) \<Rightarrow> (string \<rightharpoonup> scrapeResult)" where
  "keep r out = (if err r = None then out(slug r \<mapsto> r) else out)"

definition collect :: "scrapeResult list \<Rightarrow> (string \<rightharpoonup> scrapeResult)" where
  "collect rs = fold keep rs Map.empty"

definition scrapeAll :: "world \<Rightarrow> blogPost list \<Rightarrow> (string \<rightharpoonup> scrapeResult)" where
  "scrapeAll w posts = collect (arrive w (map (downloadAndConvertPost w) posts))"

section \<open>Listing\<close>

definition pageURL :: "nat \<Rightarrow> string" where
  "pageURL page = (if 1 < page then unchainedURL @ ''?page='' @ showNat page else unchainedURL)"

text \<open>
  The callback of \<open>Each\<close> on one anchor, on the posts gathered so far and the map
  \<open>seen\<close> (a missing key of a Go \<open>map[string]bool\<close> reads as \<open>false\<close>).
\<close>

definition visitLink ::
  "string \<times> string \<Rightarrow> blogPost list \<times> (string \<Rightarrow> bool) \<Rightarrow> blogPost list \<times> (string \<Rightarrow> bool)" where
  "visitLink a st =
     (case a of (href, text) \<Rightarrow>
      case st of (posts, seen) \<Rightarrow>
        if href = ''/unchained'' \<or> Contains href ''/category/'' then st
        else
          (let sl = TrimPrefix href ''/unchained/'' in
           if sl = [] \<or> Contains sl ''?'' \<or> seen sl then st
           else
             (let ttl = TrimSpace text;
                  ttl = (if ttl = [] then sl else ttl)
              in (posts @ [\<lparr>Title = ttl, URL = baseURL @ href, Slug = sl\<rparr>],
                  seen(sl := True)))))"

definition articleLinks :: "document \<Rightarrow> (string \<times> string) list" where
  "articleLinks doc = filter (\<lambda>a. HasPrefix (fst a) ''/unchained/'') (anchors doc)"

text \<open>
  The loop over the listing pages. It has no bound in the source; the model counts the
  pages it may still fetch, and \<open>None\<close> means that the loop has not ended within them.
\<close>

primrec pagesLoop ::
  "world \<Rightarrow> nat \<Rightarrow> nat \<Rightarrow> blogPost list \<Rightarrow> (string \<Rightarrow> bool)
     \<Rightarrow> (blogPost list \<times> error option) option" where
  "pagesLoop w 0 page posts seen = None"
| "pagesLoop w (Suc fuel) page posts seen =
     (case fetchPage w (pageURL page) of
        (html, Some e) \<Rightarrow> Some (posts, Some (PageError page e))
      | (html, None) \<Rightarrow>
          (case parseDoc w html of
             Inl e \<Rightarrow> Some (posts, Some e)
           | Inr doc \<Rightarrow>
               (case fold visitLink (articleLinks doc) (posts, seen) of
                  (posts', seen') \<Rightarrow>
                    if nextButtons doc = [] then Some (posts', None)
                    else if hd (nextButtons doc) then Some (posts', None)
                    else pagesLoop w fuel (page + 1) posts' seen')))"

definition getAllBlogLinks :: "world \<Rightarrow> nat \<Rightarrow> (blogPost list \<times> error option) option" where
  "getAllBlogLinks w fuel = pagesLoop w fuel 1 [] (\<lambda>_. False)"

section \<open>Output\<close>

definition formatPost :: "scrapeResult \<Rightarrow> string" where
  "formatPost r =
     ''## '' @ title r @ [nl, nl]
     @ (if date r \<noteq> [] then ''*Source: '' @ url r @ '' | '' @ date r @ ''*'' @ [nl, nl]
        else ''*Source: '' @ url r @ ''*'' @ [nl, nl])
     @ markdown r
     @ [nl, nl] @ ''---'' @ [nl, nl]"

section \<open>Checkpoint\<close>

text \<open>
  The checkpoint file, by what \<open>loadCheckpoint\<close> gets from it: it does not exist, it
  cannot be read, or \<open>json.Unmarshal\<close> fills the map with \<open>cp\<close> and reports an error
  or not. \<open>Parsed cp False\<close> is the file \<open>json.MarshalIndent\<close> writes for \<open>cp\<close>;
  \<open>Parsed Map.empty True\<close> is a file cut short (no complete JSON value).
\<close>

datatype ckfile = NotExist | ReadFails | Parsed checkpoint bool

record files =
  checkpointFile :: ckfile
  archiveFile :: "string option"

definition loadCheckpoint :: "ckfile \<Rightarrow> checkpoint" where
  "loadCheckpoint f =
     (case f of
        NotExist \<Rightarrow> Map.empty
      | ReadFails \<Rightarrow> Map.empty
      | Parsed cp bad \<Rightarrow> cp)"

text \<open>
  \<open>os.WriteFile\<close> opens the file with \<open>O_TRUNC\<close> and then writes the data, in several
  system calls. The file goes through three states: as it was, cut short (empty or a
  proper prefix of the data), and complete.
\<close>

definition writeFileStates :: "ckfile \<Rightarrow> checkpoint \<Rightarrow> ckfile list" where
  "writeFileStates old cp = [old, Parsed Map.empty True, Parsed cp False]"

definition saveCheckpoint :: "world \<Rightarrow> checkpoint \<Rightarrow> files \<Rightarrow> files" where
  "saveCheckpoint w cp d =
     d\<lparr>checkpointFile :=
         (case saveOutcome w of
            OpenFails \<Rightarrow> writeFileStates (checkpointFile d) cp ! 0
          | WriteFails \<Rightarrow> writeFileStates (checkpointFile d) cp ! 1
          | WriteOK \<Rightarrow> writeFileStates (checkpointFile d) cp ! 2)\<rparr>"

section \<open>Main\<close>

text \<open>The loop that picks the posts whose slug is not in the checkpoint.\<close>

primrec selectNew :: "checkpoint \<Rightarrow> blogPost list \<Rightarrow> blogPost list \<Rightarrow> blogPost list" where
  "selectNew cp [] toScrape = toScrape"
| "selectNew cp (p # ps) toScrape =
     selectNew cp ps (if cp (Slug p) = None then toScrape @ [p] else toScrape)"

text \<open>
  The choice of what to scrape: under \<open>-force\<close> every post, with the checkpoint reset
  to an empty map; otherwise the posts picked by the loop, with the checkpoint as loaded.
\<close>

definition plan :: "bool \<Rightarrow> checkpoint \<Rightarrow> blogPost list \<Rightarrow> blogPost list \<times> checkpoint" where
  "plan force cp allPosts =
     (if force then (allPosts, Map.empty) else (selectNew cp allPosts [], cp))"

text \<open>
  The loop over \<open>scraped\<close> that stores one entry per scraped slug; the keys of a map
  are distinct, so the order of the iteration does not matter.
\<close>

definition updateCheckpoint ::
  "checkpoint \<Rightarrow> (string \<rightharpoonup> scrapeResult) \<Rightarrow> string \<Rightarrow> checkpoint" where
  "updateCheckpoint cp scraped now =
     (\<lambda>s. case scraped s of
             Some r \<Rightarrow> Some \<lparr>ceTitle = title r, ceURL = url r, ceDate = date r, ceScrapedAt = now\<rparr>
           | None \<Rightarrow> cp s)"

text \<open>The results that the archive loop hands to \<open>formatPost\<close>, in listing order.\<close>

primrec sectionsOf :: "blogPost list \<Rightarrow> (string \<rightharpoonup> scrapeResult) \<Rightarrow> scrapeResult list" where
  "sectionsOf [] scraped = []"
| "sectionsOf (p # ps) scraped =
     (case scraped (Slug p) of
        Some r \<Rightarrow> r # sectionsOf ps scraped
      | None \<Rightarrow> sectionsOf ps scraped)"

definition archiveHeader :: string where
  "archiveHeader =
     ''# Unchained Blog Archive'' @ [nl, nl]
     @ ''*Articles from [chainguard.dev/unchained](https://chainguard.dev/unchained)*'' @ [nl, nl]
     @ ''---'' @ [nl, nl]"

text \<open>
  How a run ends, and what it leaves: the files, the ledger in memory, the article URLs
  it fetched and the results it wrote to the archive as sections.
\<close>

datatype exitStatus = Fatal string | UpToDate | Rebuilt nat | Appended nat

record run =
  exit :: exitStatus
  files :: files
  ledger :: checkpoint
  fetched :: "string list"
  emitted :: "scrapeResult list"

text \<open>
  The archive is rebuilt under \<open>-force\<close> or when it does not exist, and appended to
  otherwise. The results of \<open>WriteString\<close> are ignored by the source; the writes are
  taken to succeed.
\<close>

definition writeArchive ::
  "world \<Rightarrow> bool \<Rightarrow> blogPost list \<Rightarrow> (string \<rightharpoonup> scrapeResult) \<Rightarrow> files
     \<Rightarrow> exitStatus \<times> files \<times> scrapeResult list" where
  "writeArchive w force allPosts scraped d =
     (let rebuild = (force \<or> archiveFile d = None);
          secs = sectionsOf allPosts scraped
      in if rebuild then
           (if \<not> openOK w then (Fatal ''create archive'', d, [])
            else (Rebuilt (length secs),
                  d\<lparr>archiveFile := Some (archiveHeader @ concat (map formatPost secs))\<rparr>,
                  secs))
         else
           (if \<not> openOK w then (Fatal ''open archive'', d, [])
            else (Appended (length secs),
                  d\<lparr>archiveFile :=
                      Some ((case archiveFile d of Some old \<Rightarrow> old | None \<Rightarrow> [])
                            @ concat (map formatPost secs))\<rparr>,
                  secs)))"

text \<open>
  One run of the scraper, for the \<open>-force\<close> flag, the time \<open>now\<close> and the files
  \<open>d\<close> it finds. \<open>log.Fatalf\<close> ends the run with \<open>Fatal\<close> and what was written
  until then.
\<close>

definition main :: "world \<Rightarrow> nat \<Rightarrow> bool \<Rightarrow> string \<Rightarrow> files \<Rightarrow> run option" where
  "main w fuel force now d =
     (if \<not> mkdirOK w then
        Some \<lparr>exit = Fatal ''mkdir'', files = d, ledger = Map.empty, fetched = [], emitted = []\<rparr>
      else
        (let cp = loadCheckpoint (checkpointFile d) in
         case getAllBlogLinks w fuel of
           None \<Rightarrow> None
         | Some (allPosts, Some e) \<Rightarrow>
             Some \<lparr>exit = Fatal ''listing'', files = d, ledger = cp, fetched = [], emitted = []\<rparr>
         | Some (allPosts, None) \<Rightarrow>
             if allPosts = [] then
               Some \<lparr>exit = Fatal ''no posts found'', files = d, ledger = cp, fetched = [],
                     emitted = []\<rparr>
             else
               (case plan force cp allPosts of
                  (toScrape, cp) \<Rightarrow>
                    if toScrape = [] then
                      Some \<lparr>exit = UpToDate, files = d, ledger = cp, fetched = [], emitted = []\<rparr>
                    else
                      (let scraped = scrapeAll w toScrape;
                           cp = updateCheckpoint cp scraped now;
                           d = saveCheckpoint w cp d
                       in case writeArchive w force allPosts scraped d of
                            (status, d, secs) \<Rightarrow>
                              Some \<lparr>exit = status, files = d, ledger = cp,
                                    fetched = map URL toScrape, emitted = secs\<rparr>))))"


section \<open>A small site\<close>

text \<open>
  A site of two listing pages and two articles, used to run the model: the first listing
  page links to \<open>post-a\<close> (twice), to a category and to another page, and its next
  button is enabled; the second links to \<open>post-b\<close> and its next button is disabled. The
  outcomes of fetching the second listing page and \<open>post-b\<close> are parameters.
\<close>

definition emptyDoc :: document where
  "emptyDoc = \<lparr>anchors = [], nextButtons = [], h1Texts = [], region = (\<lambda>_. None),
      bodyHtml = [], timeEls = [], textNodes = []\<rparr>"

definition listing1 :: document where
  "listing1 = emptyDoc\<lparr>anchors :=
      [(''/unchained/post-a'', ''Post A''), (''/unchained/category/news'', ''News''),
       (''/unchained/post-a'', ''Read more''), (''/about'', ''About'')],
     nextButtons := [False]\<rparr>"

definition listing2 :: document where
  "listing2 = emptyDoc\<lparr>anchors := [(''/unchained/post-b'', '' Post B '')],
     nextButtons := [True]\<rparr>"

definition articleA :: document where
  "articleA = emptyDoc\<lparr>h1Texts := [''Post A''], bodyHtml := ''Body A'',
     timeEls := [(Some ''2024-01-15'', ''Jan 15'')]\<rparr>"

definition articleB :: document where
  "articleB = emptyDoc\<lparr>bodyHtml := ''Body B'',
     timeEls := [(Some ''2024-01-15T10:00:00Z'', ''Jan 15'')]\<rparr>"

definition demoNet :: "httpOutcome \<Rightarrow> httpOutcome \<Rightarrow> string \<Rightarrow> httpOutcome" where
  "demoNet page2 postB u =
     (if u = unchainedURL then Responded 200 ''L1'' None
      else if u = unchainedURL @ ''?page=2'' then page2
      else if u = baseURL @ ''/unchained/post-a'' then Responded 200 ''A'' None
      else if u = baseURL @ ''/unchained/post-b'' then postB
      else Responded 404 ''Not Found'' None)"

definition demoParse :: "string \<Rightarrow> error + document" where
  "demoParse html =
     (if html = ''L1'' then Inr listing1
      else if html = ''L2'' then Inr listing2
      else if html = ''A'' then Inr articleA
      else if html = ''B'' then Inr articleB
      else Inr emptyDoc)"

definition demoWorld :: "httpOutcome \<Rightarrow> httpOutcome \<Rightarrow> world" where
  "demoWorld page2 postB =
     \<lparr>net = demoNet page2 postB, parseDoc = demoParse, convertMD = Inr, arrive = rev,
      mkdirOK = True, saveOutcome = WriteOK, openOK = True\<rparr>"

definition noFiles :: files where
  "noFiles = \<lparr>checkpointFile = NotExist, archiveFile = None\<rparr>"

definition postA :: blogPost where
  "postA = \<lparr>Title = ''Post A'', URL = ''https://chainguard.dev/unchained/post-a'',
     Slug = ''post-a''\<rparr>"

definition postB :: blogPost where
  "postB = \<lparr>Title = ''Post B'', URL = ''https://chainguard.dev/unchained/post-b'',
     Slug = ''post-b''\<rparr>"

definition ledgerA :: checkpoint where
  "ledgerA = [''post-a'' \<mapsto> \<lparr>ceTitle = ''Post A'',
     ceURL = ''https://chainguard.dev/unchained/post-a'', ceDate = ''January 15, 2024'',
     ceScrapedAt = ''2024-05-01T00:00:00Z''\<rparr>]"

definition siteOK :: world where
  "siteOK = demoWorld (Responded 200 ''L2'' None) (Responded 200 ''B'' None)"

definition sitePage2Down :: world where
  "sitePage2Down = demoWorld (DoFailed (TransportError ''timeout'')) (Responded 200 ''B'' None)"


text \<open>A page with the given \<open>time\<close> elements and text nodes, and nothing else.\<close>

definition datedDoc :: "(string option \<times> string) list \<Rightarrow> string list \<Rightarrow> document" where
  "datedDoc ts ns = emptyDoc\<lparr>timeEls := ts, textNodes := ns\<rparr>"

section \<open>Notions used in the statements\<close>

text \<open>
  \<open>lead s\<close> counts the newlines \<open>s\<close> starts with; \<open>no3 s\<close> says that no three
  newlines follow one another anywhere in \<open>s\<close>.
\<close>

definition lead :: "string \<Rightarrow> nat" where
  "lead s = length (takeWhile (\<lambda>c. c = nl) s)"

primrec no3 :: "string \<Rightarrow> bool" where
  "no3 [] = True"
| "no3 (c # cs) = (lead (c # cs) \<le> 2 \<and> no3 cs)"

text \<open>The invariant of the listing loop.\<close>

definition linksInv :: "blogPost list \<times> (string \<Rightarrow> bool) \<Rightarrow> bool" where
  "linksInv st =
     (distinct (map Slug (fst st))
      \<and> list_all (\<lambda>p. Slug p \<noteq> [] \<and> \<not> Contains (Slug p) ''?'' \<and> snd st (Slug p)) (fst st))"

text \<open>The loop ends at the first page that cannot be had or has no enabled next button.\<close>

definition lastPage :: "world \<Rightarrow> nat \<Rightarrow> bool" where
  "lastPage w page =
     (case fetchPage w (pageURL page) of
        (html, Some e) \<Rightarrow> True
      | (html, None) \<Rightarrow>
          (case parseDoc w html of
             Inl e \<Rightarrow> True
           | Inr doc \<Rightarrow> nextButtons doc = [] \<or> hd (nextButtons doc)))"

text \<open>
  The results arrive in some order, each once: \<open>arrive w\<close> permutes what the workers
  send.
\<close>

definition fairArrival :: "world \<Rightarrow> bool" where
  "fairArrival w = (\<forall>rs. mset (arrive w rs) = mset rs)"

section \<open>Cleanup: properties\<close>

subsection \<open>Facts about trimming\<close>

lemma runeLen_trimLeftBy: "runeLen toks (trimLeftBy toks s) = 0"
proof (induction toks s rule: trimLeftBy.induct)
  case (1 toks s)
  show ?case
  proof (cases "runeLen toks s = 0")
    case True
    then show ?thesis by (subst trimLeftBy.simps) simp
  next
    case False
    with 1 show ?thesis by (subst trimLeftBy.simps) simp
  qed
qed

lemma trimLeftBy_fix: "runeLen toks s = 0 \<Longrightarrow> trimLeftBy toks s = s"
  by (subst trimLeftBy.simps) simp

lemma trimLeftBy_idem: "trimLeftBy toks (trimLeftBy toks s) = trimLeftBy toks s"
  by (rule trimLeftBy_fix) (rule runeLen_trimLeftBy)

lemma runeLen_Cons:
  "runeLen (t # ts) s = (if take (length t) s = t then length t else runeLen ts s)"
  by (simp add: runeLen_def)

lemma take_prefix_app: "take (length t) y = t \<Longrightarrow> take (length t) (y @ z) = t"
proof -
  assume a: "take (length t) y = t"
  then have "length (take (length t) y) = length t" by simp
  then have "length t \<le> length y" by simp
  with a show ?thesis by simp
qed

lemma runeLen_prefix: "runeLen toks (y @ z) = 0 \<Longrightarrow> runeLen toks y = 0"
proof (induction toks)
  case Nil
  then show ?case by (simp add: runeLen_def)
next
  case (Cons t ts)
  show ?case
  proof (cases "take (length t) y = t")
    case True
    then have "take (length t) (y @ z) = t" by (rule take_prefix_app)
    with Cons.prems True show ?thesis by (simp add: runeLen_Cons)
  next
    case False
    show ?thesis
    proof (cases "take (length t) (y @ z) = t")
      case True
      with Cons.prems have "t = []" by (simp add: runeLen_Cons)
      with False show ?thesis by simp
    next
      case F2: False
      with Cons.prems have "runeLen ts (y @ z) = 0" by (simp add: runeLen_Cons)
      then have "runeLen ts y = 0" by (rule Cons.IH)
      with False show ?thesis by (simp add: runeLen_Cons)
    qed
  qed
qed

lemma trimLeftBy_suffix: "\<exists>z. s = z @ trimLeftBy toks s"
proof (induction toks s rule: trimLeftBy.induct)
  case (1 toks s)
  show ?case
  proof (cases "runeLen toks s = 0")
    case True
    then show ?thesis by (subst trimLeftBy.simps) simp
  next
    case False
    with 1 obtain z where z: "drop (runeLen toks s) s = z @ trimLeftBy toks (drop (runeLen toks s) s)"
      by blast
    have "s = take (runeLen toks s) s @ drop (runeLen toks s) s" by simp
    with z have "s = (take (runeLen toks s) s @ z) @ trimLeftBy toks (drop (runeLen toks s) s)"
      by (metis append.assoc)
    moreover have "trimLeftBy toks s = trimLeftBy toks (drop (runeLen toks s) s)"
      using False by (subst trimLeftBy.simps) simp
    ultimately show ?thesis by metis
  qed
qed

lemma TrimSpace_infix: "\<exists>a b. s = a @ TrimSpace s @ b"
proof -
  let ?x = "trimLeftBy spaceRunes s"
  obtain a where a: "s = a @ ?x" using trimLeftBy_suffix by blast
  obtain z where z: "rev ?x = z @ trimLeftBy (map rev spaceRunes) (rev ?x)"
    using trimLeftBy_suffix by blast
  then have "?x = TrimSpace s @ rev z"
    by (metis TrimSpace_def rev_append rev_rev_ident)
  with a show ?thesis by metis
qed

lemma TrimSpace_no_leading: "runeLen spaceRunes (TrimSpace s) = 0"
proof -
  let ?x = "trimLeftBy spaceRunes s"
  obtain z where z: "rev ?x = z @ trimLeftBy (map rev spaceRunes) (rev ?x)"
    using trimLeftBy_suffix by blast
  then have "?x = TrimSpace s @ rev z"
    by (metis TrimSpace_def rev_append rev_rev_ident)
  moreover have "runeLen spaceRunes ?x = 0" by (rule runeLen_trimLeftBy)
  ultimately show ?thesis using runeLen_prefix by metis
qed

lemma TrimSpace_idem: "TrimSpace (TrimSpace s) = TrimSpace s"
proof -
  have l: "trimLeftBy spaceRunes (TrimSpace s) = TrimSpace s"
    by (rule trimLeftBy_fix) (rule TrimSpace_no_leading)
  have "TrimSpace (TrimSpace s) = rev (trimLeftBy (map rev spaceRunes) (rev (TrimSpace s)))"
    by (simp add: TrimSpace_def [of "TrimSpace s"] l)
  also have "\<dots> = TrimSpace s"
    by (simp add: TrimSpace_def [of s] trimLeftBy_idem)
  finally show ?thesis .
qed

subsection \<open>Facts about the blank-line pass\<close>

lemma m_nl:
  "matches (Lit [nl]) (prev, s) =
     (case s of [] \<Rightarrow> [] | d # ds \<Rightarrow> if d = nl then [(Some nl, ds)] else [])"
  by (auto split: list.splits)

lemma star_greedy_ne: "star_greedy f n p \<noteq> []"
  by (cases n) simp_all

lemma lead_Cons: "lead (c # cs) = (if c = nl then Suc (lead cs) else 0)"
  by (simp add: lead_def)

lemma lead_Nil: "lead [] = 0"
  by (simp add: lead_def)

lemma star_nl_hd:
  "hd (star_greedy (matches (Lit [nl])) (length s) (prev, s)) =
     (if lead s = 0 then (prev, s) else (Some nl, dropWhile (\<lambda>c. c = nl) s))"
proof (induction s arbitrary: prev)
  case Nil
  then show ?case by (simp add: lead_Nil)
next
  case (Cons c cs)
  show ?case
  proof (cases "c = nl")
    case True
    have "star_greedy (matches (Lit [nl])) (length (c # cs)) (prev, c # cs) =
        star_greedy (matches (Lit [nl])) (length cs) (Some nl, cs) @ [(prev, c # cs)]"
      using True by (simp add: m_nl del: matches.simps)
    then have "hd (star_greedy (matches (Lit [nl])) (length (c # cs)) (prev, c # cs)) =
        hd (star_greedy (matches (Lit [nl])) (length cs) (Some nl, cs))"
      by (simp add: star_greedy_ne del: matches.simps star_greedy.simps)
    also have "\<dots> = (if lead cs = 0 then (Some nl, cs) else (Some nl, dropWhile (\<lambda>c. c = nl) cs))"
      by (rule Cons.IH)
    also have "\<dots> = (Some nl, dropWhile (\<lambda>c. c = nl) cs)"
      by (cases cs) (auto simp: lead_Cons)
    finally show ?thesis using True by (simp add: lead_Cons del: matches.simps star_greedy.simps)
  next
    case False
    then show ?thesis by (simp add: lead_Cons m_nl del: matches.simps)
  qed
qed

lemma lead_Suc: "Suc n \<le> lead s \<Longrightarrow> \<exists>t. s = nl # t \<and> n \<le> lead t"
  by (cases s) (auto simp: lead_Cons lead_Nil split: if_splits)

lemma matches_blanks:
  "matches reExcessBlanks (prev, s) =
     (case s of
        a # b # c # t \<Rightarrow>
          if a = nl \<and> b = nl \<and> c = nl
          then star_greedy (matches (Lit [nl])) (length t) (Some nl, t) else []
      | _ \<Rightarrow> [])"
  by (auto simp: reExcessBlanks_def rplus_def split: list.splits)

lemma matches_blanks_none:
  "lead s \<le> 2 \<Longrightarrow> matches reExcessBlanks (prev, s) = []"
  by (auto simp: matches_blanks lead_Cons split: list.splits if_splits)

lemma matches_blanks_some:
  assumes "3 \<le> lead s"
  shows "matches reExcessBlanks (prev, s) \<noteq> [] \<and>
     hd (matches reExcessBlanks (prev, s)) = (Some nl, dropWhile (\<lambda>c. c = nl) s)"
proof -
  from assms have "Suc 2 \<le> lead s" by simp
  then obtain t1 where t1: "s = nl # t1" "Suc 1 \<le> lead t1" using lead_Suc by fastforce
  then obtain t2 where t2: "t1 = nl # t2" "Suc 0 \<le> lead t2" using lead_Suc by fastforce
  then obtain t where t3: "t2 = nl # t" using lead_Suc by fastforce
  from t1 t2 t3 have s: "s = nl # nl # nl # t" by simp
  have m: "matches reExcessBlanks (prev, s) = star_greedy (matches (Lit [nl])) (length t) (Some nl, t)"
    by (simp add: matches_blanks s del: matches.simps)
  have "hd (star_greedy (matches (Lit [nl])) (length t) (Some nl, t)) =
      (if lead t = 0 then (Some nl, t) else (Some nl, dropWhile (\<lambda>c. c = nl) t))"
    by (rule star_nl_hd)
  moreover have "lead t = 0 \<Longrightarrow> dropWhile (\<lambda>c. c = nl) t = t"
    by (cases t) (auto simp: lead_Cons split: if_splits)
  ultimately have "hd (star_greedy (matches (Lit [nl])) (length t) (Some nl, t)) =
      (Some nl, dropWhile (\<lambda>c. c = nl) t)"
    by (cases "lead t = 0") simp_all
  with m show ?thesis by (simp add: s star_greedy_ne del: matches.simps star_greedy.simps)
qed

lemma replaceAll_blanks_no3:
  "no3 s \<Longrightarrow> replaceAll reExcessBlanks repl (prev, s) = s"
proof (induction s arbitrary: prev)
  case Nil
  then show ?case by (subst replaceAll.simps) (simp add: matches_blanks del: matches.simps)
next
  case (Cons c cs)
  then have "matches reExcessBlanks (prev, c # cs) = []" by (simp add: matches_blanks_none)
  moreover have "replaceAll reExcessBlanks repl (Some c, cs) = cs" using Cons by simp
  ultimately show ?case by (subst replaceAll.simps) simp
qed

lemma dropWhile_lead0: "lead (dropWhile (\<lambda>c. c = nl) s) = 0"
  by (induction s) (auto simp: lead_Cons lead_Nil)

lemma replaceAll_blanks_out:
  "no3 (replaceAll reExcessBlanks [nl, nl] (prev, s)) \<and>
   lead (replaceAll reExcessBlanks [nl, nl] (prev, s)) = min 2 (lead s)"
proof (induction "length s" arbitrary: prev s rule: less_induct)
  case less
  show ?case
  proof (cases "3 \<le> lead s")
    case True
    let ?q = "(Some nl, dropWhile (\<lambda>c. c = nl) s)"
    from True obtain t where t: "s = nl # t" using lead_Suc [of 2 s] by auto
    have len: "length (dropWhile (\<lambda>c. c = nl) s) < length s"
      using t by (simp add: le_imp_less_Suc length_dropWhile_le)
    from matches_blanks_some [OF True, of prev]
    obtain ms where ms: "matches reExcessBlanks (prev, s) = ?q # ms"
      by (cases "matches reExcessBlanks (prev, s)") auto
    have r: "replaceAll reExcessBlanks [nl, nl] (prev, s) =
        [nl, nl] @ replaceAll reExcessBlanks [nl, nl] ?q"
      by (subst replaceAll.simps) (simp add: ms len del: matches.simps)
    from less [OF len, of "Some nl"] have ih:
      "no3 (replaceAll reExcessBlanks [nl, nl] ?q)"
      "lead (replaceAll reExcessBlanks [nl, nl] ?q) = 0"
      by (simp_all add: dropWhile_lead0)
    from r ih True show ?thesis by (simp add: lead_Cons)
  next
    case False
    then have nm: "matches reExcessBlanks (prev, s) = []" by (simp add: matches_blanks_none)
    show ?thesis
    proof (cases s)
      case Nil
      then show ?thesis using nm by (subst replaceAll.simps, subst replaceAll.simps) (simp add: lead_Nil)
    next
      case (Cons c cs)
      have r: "replaceAll reExcessBlanks [nl, nl] (prev, s) =
          c # replaceAll reExcessBlanks [nl, nl] (Some c, cs)"
        using nm unfolding Cons by (subst replaceAll.simps) simp
      from less [of cs "Some c"] Cons have ih:
        "no3 (replaceAll reExcessBlanks [nl, nl] (Some c, cs))"
        "lead (replaceAll reExcessBlanks [nl, nl] (Some c, cs)) = min 2 (lead cs)"
        by simp_all
      from r ih False Cons show ?thesis by (auto simp: lead_Cons)
    qed
  qed
qed

lemma lead_append_le: "lead x \<le> lead (x @ b)"
  by (induction x) (auto simp: lead_Cons lead_Nil)

lemma no3_prefix: "no3 (x @ b) \<Longrightarrow> no3 x"
proof (induction x)
  case Nil
  then show ?case by simp
next
  case (Cons c x)
  have "lead (c # x) \<le> lead ((c # x) @ b)" by (rule lead_append_le)
  with Cons show ?case by simp
qed

lemma no3_suffix: "no3 (a @ x) \<Longrightarrow> no3 x"
  by (induction a) auto

lemma no3_TrimSpace: "no3 s \<Longrightarrow> no3 (TrimSpace s)"
proof -
  assume n: "no3 s"
  obtain a b where "s = a @ TrimSpace s @ b" using TrimSpace_infix by blast
  with n have "no3 (a @ TrimSpace s @ b)" by simp
  then have "no3 (TrimSpace s @ b)" by (rule no3_suffix)
  then show ?thesis by (rule no3_prefix)
qed

lemma no3_cleanMarkdown: "no3 (cleanMarkdown raw ttl)"
  by (simp add: cleanMarkdown_def Let_def ReplaceAllString_def no3_TrimSpace replaceAll_blanks_out
      del: replaceAll.simps)

lemma cleanMarkdown_trimmed: "TrimSpace (cleanMarkdown raw ttl) = cleanMarkdown raw ttl"
  by (simp add: cleanMarkdown_def Let_def TrimSpace_idem)

text \<open>
  The example of the specification: the duplicate heading goes, and the share block with
  everything behind it.
\<close>

lemma cleanMarkdown_example:
  "cleanMarkdown (''# My Title'' @ [nl, nl] @ ''Body'' @ [nl, nl] @ ''Share this article''
      @ [nl] @ ''Footer junk'') ''My Title'' = ''Body''"
  by code_simp

text \<open>
  Claim C5, as amended. The cleanup is not idempotent as a whole, but its result is a
  fixed point of its last two passes: cleaned Markdown holds no run of three or more
  newlines and no leading or trailing white space, so collapsing blank lines and trimming
  it again changes nothing. The removal passes before them can fire again on cleaned
  text, as the counterexample below shows.
\<close>

theorem cleanMarkdown_last_passes_fixed:
  "TrimSpace (ReplaceAllString reExcessBlanks (cleanMarkdown raw ttl) [nl, nl])
     = cleanMarkdown raw ttl"
proof -
  have "no3 (cleanMarkdown raw ttl)" by (rule no3_cleanMarkdown)
  then have "ReplaceAllString reExcessBlanks (cleanMarkdown raw ttl) [nl, nl]
      = cleanMarkdown raw ttl"
    by (simp add: ReplaceAllString_def replaceAll_blanks_no3)
  then show ?thesis by (simp add: cleanMarkdown_trimmed)
qed

text \<open>
  Claim C5 as stated fails. A heading line that starts with a blank is not at the start
  of a line for the heading pass; the final trim of the first run removes the blank, and
  the second run then removes the heading: the first run yields the heading and the
  body, the second only the body.
\<close>

theorem cleanMarkdown_not_idempotent:
  "cleanMarkdown ('' # My Title'' @ [nl, nl] @ ''Body'') ''My Title''
      = ''# My Title'' @ [nl, nl] @ ''Body''
   \<and> cleanMarkdown (cleanMarkdown ('' # My Title'' @ [nl, nl] @ ''Body'') ''My Title'')
        ''My Title'' = ''Body''
   \<and> cleanMarkdown (cleanMarkdown ('' # My Title'' @ [nl, nl] @ ''Body'') ''My Title'')
        ''My Title''
      \<noteq> cleanMarkdown ('' # My Title'' @ [nl, nl] @ ''Body'') ''My Title''"
  by code_simp

section \<open>HTTP: properties\<close>

text \<open>
  Claim C10. The page fetcher does not look at the status code: whenever a response
  arrives and its body is read without error, whatever the status (404 and 500
  included), \<open>fetchPage\<close> returns the body and no error, and the article scraper
  does with it exactly what it does with a 200 response of the same body.
\<close>

theorem fetchPage_any_status:
  assumes "net w (URL p) = Responded status body None"
  shows "fetchPage w (URL p) = (body, None)
       \<and> downloadAndConvertPost w p
           = downloadAndConvertPost (w\<lparr>net := (net w)(URL p := Responded 200 body None)\<rparr>) p"
  using assms by (simp add: fetchPage_def downloadAndConvertPost_def Let_def split: sum.splits)

text \<open>
  Claim C10, at a concrete input: \<open>post-b\<close> answers 404 with the body \<open>B\<close>; the body
  is returned without error and scraped like that of a 200 response.
\<close>

theorem fetchPage_any_status_witness:
  "fetchPage (demoWorld (Responded 200 ''L2'' None) (Responded 404 ''B'' None)) (URL postB)
       = (''B'', None)
   \<and> downloadAndConvertPost (demoWorld (Responded 200 ''L2'' None) (Responded 404 ''B'' None)) postB
       = downloadAndConvertPost
           ((demoWorld (Responded 200 ''L2'' None) (Responded 404 ''B'' None))
              \<lparr>net := (net (demoWorld (Responded 200 ''L2'' None) (Responded 404 ''B'' None)))
                 (URL postB := Responded 200 ''B'' None)\<rparr>) postB
   \<and> err (downloadAndConvertPost
        (demoWorld (Responded 200 ''L2'' None) (Responded 404 ''B'' None)) postB) = None
   \<and> markdown (downloadAndConvertPost
        (demoWorld (Responded 200 ''L2'' None) (Responded 404 ''B'' None)) postB) = ''Body B''"
proof -
  have h: "net (demoWorld (Responded 200 ''L2'' None) (Responded 404 ''B'' None)) (URL postB)
      = Responded 404 ''B'' None"
    by (simp add: demoWorld_def demoNet_def postB_def unchainedURL_def baseURL_def)
  have c: "err (downloadAndConvertPost
        (demoWorld (Responded 200 ''L2'' None) (Responded 404 ''B'' None)) postB) = None
   \<and> markdown (downloadAndConvertPost
        (demoWorld (Responded 200 ''L2'' None) (Responded 404 ''B'' None)) postB) = ''Body B''"
    by code_simp
  from fetchPage_any_status [OF h] c show ?thesis by blast
qed

section \<open>Dates: properties\<close>

lemma formatLong_nonempty: "formatLong t \<noteq> []"
  by (cases t) (simp add: formatLong_def)

text \<open>
  Claim C7, as amended. The publish date is resolved in this order: (a) when the first
  \<open>time\<close> element has a \<open>datetime\<close> attribute that parses as \<open>YYYY-MM-DD\<close>, the
  attribute reformatted as a long-form date; (a') when the attribute is not empty but does
  not parse, the attribute itself, unchanged; (b) when the attribute is missing or empty,
  the trimmed text of the element; (c) when there is no \<open>time\<close> element, or (b) gives
  the empty text, the trimmed text of the first paragraph, div or span that is a long-form
  date, and the empty date when there is none. A page that is fetched, parsed and
  converted yields a result without error, whatever its date.
\<close>

theorem resolveDate_order:
  "(timeEls doc = (Some dt, tx) # rest \<and> parseISODate dt = Some t
      \<longrightarrow> resolveDate doc = formatLong t)
   \<and> (timeEls doc = (Some dt, tx) # rest \<and> dt \<noteq> [] \<and> parseISODate dt = None
      \<longrightarrow> resolveDate doc = dt)
   \<and> (timeEls doc = (attr, tx) # rest \<and> (attr = None \<or> attr = Some []) \<and> TrimSpace tx \<noteq> []
      \<longrightarrow> resolveDate doc = TrimSpace tx)
   \<and> (timeEls doc = [] \<or>
        (timeEls doc = (attr, tx) # rest \<and> (attr = None \<or> attr = Some []) \<and> TrimSpace tx = [])
      \<longrightarrow> resolveDate doc =
            (case find (\<lambda>s. MatchString reDateText (TrimSpace s)) (textNodes doc) of
               Some s \<Rightarrow> TrimSpace s
             | None \<Rightarrow> []))
   \<and> (fetchPage w (URL p) = (html, None) \<and> parseDoc w html = Inr doc
        \<and> convertMD w (if pickContent doc articleSelectors = [] then bodyHtml doc
                        else pickContent doc articleSelectors) = Inr md
      \<longrightarrow> err (downloadAndConvertPost w p) = None
          \<and> date (downloadAndConvertPost w p) = resolveDate doc)"
proof (intro conjI impI)
  assume "timeEls doc = (Some dt, tx) # rest \<and> parseISODate dt = Some t"
  moreover from this have "dt \<noteq> []" by (auto simp: parseISODate_def)
  ultimately show "resolveDate doc = formatLong t"
    by (simp add: resolveDate_def formatLong_nonempty)
next
  assume "timeEls doc = (Some dt, tx) # rest \<and> dt \<noteq> [] \<and> parseISODate dt = None"
  then show "resolveDate doc = dt" by (simp add: resolveDate_def)
next
  assume "timeEls doc = (attr, tx) # rest \<and> (attr = None \<or> attr = Some []) \<and> TrimSpace tx \<noteq> []"
  then show "resolveDate doc = TrimSpace tx" by (auto simp: resolveDate_def)
next
  assume "timeEls doc = [] \<or>
        (timeEls doc = (attr, tx) # rest \<and> (attr = None \<or> attr = Some []) \<and> TrimSpace tx = [])"
  then show "resolveDate doc =
            (case find (\<lambda>s. MatchString reDateText (TrimSpace s)) (textNodes doc) of
               Some s \<Rightarrow> TrimSpace s
             | None \<Rightarrow> [])"
    by (auto simp: resolveDate_def)
next
  assume a: "fetchPage w (URL p) = (html, None) \<and> parseDoc w html = Inr doc
        \<and> convertMD w (if pickContent doc articleSelectors = [] then bodyHtml doc
                        else pickContent doc articleSelectors) = Inr md"
  then show "err (downloadAndConvertPost w p) = None"
    by (simp add: downloadAndConvertPost_def Let_def)
  from a show "date (downloadAndConvertPost w p) = resolveDate doc"
    by (simp add: downloadAndConvertPost_def Let_def)
qed

text \<open>
  Claim C7 as amended, at concrete inputs: one page for each of the cases (a), (a'),
  (b), (c) with a match and (c) without, and the article \<open>post-a\<close> of the small site.
\<close>

theorem resolveDate_order_witness:
  "resolveDate (datedDoc [(Some ''2024-01-15'', ''Jan 15'')] []) = ''January 15, 2024''
   \<and> resolveDate (datedDoc [(Some ''2024-01-15T10:00:00Z'', ''Jan 15'')] [])
       = ''2024-01-15T10:00:00Z''
   \<and> resolveDate (datedDoc [(None, '' Jan 15 '')] [''March 3, 2023'']) = ''Jan 15''
   \<and> resolveDate (datedDoc [] [''By Jane'', '' March 3, 2023 '', ''April 4, 2024''])
       = ''March 3, 2023''
   \<and> resolveDate (datedDoc [(Some [], ''  '')] [''By Jane'']) = []
   \<and> err (downloadAndConvertPost siteOK postA) = None
   \<and> date (downloadAndConvertPost siteOK postA) = resolveDate articleA"
proof -
  have a: "timeEls (datedDoc [(Some ''2024-01-15'', ''Jan 15'')] [])
        = (Some ''2024-01-15'', ''Jan 15'') # []
      \<and> parseISODate ''2024-01-15'' = Some (2024, 1, 15)"
    by code_simp
  have a': "formatLong (2024, 1, 15) = ''January 15, 2024''" by code_simp
  have b: "timeEls (datedDoc [(Some ''2024-01-15T10:00:00Z'', ''Jan 15'')] [])
        = (Some ''2024-01-15T10:00:00Z'', ''Jan 15'') # []
      \<and> ''2024-01-15T10:00:00Z'' \<noteq> [] \<and> parseISODate ''2024-01-15T10:00:00Z'' = None"
    by code_simp
  have c: "timeEls (datedDoc [(None, '' Jan 15 '')] [''March 3, 2023''])
        = (None, '' Jan 15 '') # []
      \<and> ((None :: string option) = None \<or> (None :: string option) = Some [])
      \<and> TrimSpace '' Jan 15 '' \<noteq> []"
    by code_simp
  have c': "TrimSpace '' Jan 15 '' = ''Jan 15''" by code_simp
  have d: "timeEls (datedDoc [] [''By Jane'', '' March 3, 2023 '', ''April 4, 2024'']) = []"
    by code_simp
  have d': "(case find (\<lambda>s. MatchString reDateText (TrimSpace s))
         (textNodes (datedDoc [] [''By Jane'', '' March 3, 2023 '', ''April 4, 2024''])) of
        Some s \<Rightarrow> TrimSpace s | None \<Rightarrow> []) = ''March 3, 2023''"
    by code_simp
  have e: "timeEls (datedDoc [(Some [], ''  '')] [''By Jane'']) = (Some [], ''  '') # []
      \<and> TrimSpace ''  '' = []"
    by code_simp
  have e': "(case find (\<lambda>s. MatchString reDateText (TrimSpace s))
         (textNodes (datedDoc [(Some [], ''  '')] [''By Jane''])) of
        Some s \<Rightarrow> TrimSpace s | None \<Rightarrow> []) = []"
    by code_simp
  have f1: "fetchPage siteOK (URL postA) = (''A'', None)" by code_simp
  have f2: "parseDoc siteOK ''A'' = Inr articleA"
    by (simp add: siteOK_def demoWorld_def demoParse_def)
  have f3: "convertMD siteOK (if pickContent articleA articleSelectors = [] then bodyHtml articleA
            else pickContent articleA articleSelectors)
      = Inr (if pickContent articleA articleSelectors = [] then bodyHtml articleA
            else pickContent articleA articleSelectors)"
    by (simp add: siteOK_def demoWorld_def)
  from resolveDate_order [where doc = "datedDoc [(Some ''2024-01-15'', ''Jan 15'')] []"
      and dt = "''2024-01-15''" and tx = "''Jan 15''" and rest = "[]" and t = "(2024, 1, 15)"] a a'
  have 1: "resolveDate (datedDoc [(Some ''2024-01-15'', ''Jan 15'')] []) = ''January 15, 2024''"
    by simp
  from resolveDate_order [where doc = "datedDoc [(Some ''2024-01-15T10:00:00Z'', ''Jan 15'')] []"
      and dt = "''2024-01-15T10:00:00Z''" and tx = "''Jan 15''" and rest = "[]"] b
  have 2: "resolveDate (datedDoc [(Some ''2024-01-15T10:00:00Z'', ''Jan 15'')] [])
       = ''2024-01-15T10:00:00Z''"
    by blast
  from resolveDate_order [where doc = "datedDoc [(None, '' Jan 15 '')] [''March 3, 2023'']"
      and attr = None and tx = "'' Jan 15 ''" and rest = "[]"] c c'
  have 3: "resolveDate (datedDoc [(None, '' Jan 15 '')] [''March 3, 2023'']) = ''Jan 15''"
    by simp
  from resolveDate_order
      [where doc = "datedDoc [] [''By Jane'', '' March 3, 2023 '', ''April 4, 2024'']"] d
  have "resolveDate (datedDoc [] [''By Jane'', '' March 3, 2023 '', ''April 4, 2024''])
      = (case find (\<lambda>s. MatchString reDateText (TrimSpace s))
         (textNodes (datedDoc [] [''By Jane'', '' March 3, 2023 '', ''April 4, 2024''])) of
        Some s \<Rightarrow> TrimSpace s | None \<Rightarrow> [])"
    by blast
  with d' have 4: "resolveDate (datedDoc [] [''By Jane'', '' March 3, 2023 '', ''April 4, 2024''])
       = ''March 3, 2023''" by simp
  from resolveDate_order [where doc = "datedDoc [(Some [], ''  '')] [''By Jane'']"
      and attr = "Some []" and tx = "''  ''" and rest = "[]"] e
  have "resolveDate (datedDoc [(Some [], ''  '')] [''By Jane''])
      = (case find (\<lambda>s. MatchString reDateText (TrimSpace s))
         (textNodes (datedDoc [(Some [], ''  '')] [''By Jane''])) of
        Some s \<Rightarrow> TrimSpace s | None \<Rightarrow> [])"
    by blast
  with e' have 5: "resolveDate (datedDoc [(Some [], ''  '')] [''By Jane'']) = []" by simp
  from resolveDate_order [where doc = articleA and w = siteOK and p = postA and html = "''A''"
      and md = "if pickContent articleA articleSelectors = [] then bodyHtml articleA
            else pickContent articleA articleSelectors"] f1 f2 f3
  have 6: "err (downloadAndConvertPost siteOK postA) = None
      \<and> date (downloadAndConvertPost siteOK postA) = resolveDate articleA"
    by blast
  from 1 2 3 4 5 6 show ?thesis by blast
qed

text \<open>
  Claim C7 as stated fails in its case (b): a \<open>datetime\<close> attribute that does not parse
  (here a full timestamp) is itself taken as the date; the text of the element is not
  used.
\<close>

theorem resolveDate_attr_counterexample:
  "parseISODate ''2024-01-15T10:00:00Z'' = None
   \<and> resolveDate (datedDoc [(Some ''2024-01-15T10:00:00Z'', ''Jan 15'')] [])
        = ''2024-01-15T10:00:00Z''
   \<and> resolveDate (datedDoc [(Some ''2024-01-15T10:00:00Z'', ''Jan 15'')] [])
        \<noteq> TrimSpace ''Jan 15''"
  by code_simp

section \<open>Listing: properties\<close>

lemma linksInv_visitLink: "linksInv st \<Longrightarrow> linksInv (visitLink a st)"
proof -
  assume inv: "linksInv st"
  obtain href tx where a: "a = (href, tx)" by (cases a)
  obtain posts seen where st: "st = (posts, seen)" by (cases st)
  from inv st have d: "distinct (map Slug posts)"
    and l: "list_all (\<lambda>p. Slug p \<noteq> [] \<and> \<not> Contains (Slug p) ''?'' \<and> seen (Slug p)) posts"
    by (simp_all add: linksInv_def)
  show ?thesis
  proof (cases "href = ''/unchained'' \<or> Contains href ''/category/''")
    case True
    with inv show ?thesis by (simp add: visitLink_def a st del: Contains.simps)
  next
    case False
    let ?sl = "TrimPrefix href ''/unchained/''"
    show ?thesis
    proof (cases "?sl = [] \<or> Contains ?sl ''?'' \<or> seen ?sl")
      case True
      with False inv show ?thesis by (simp add: visitLink_def a st Let_def del: Contains.simps)
    next
      case F2: False
      from F2 l have notin: "?sl \<notin> set (map Slug posts)"
        by (auto simp: list_all_iff)
      from l have l': "list_all (\<lambda>p. Slug p \<noteq> [] \<and> \<not> Contains (Slug p) ''?''
            \<and> (seen(?sl := True)) (Slug p)) posts"
        by (auto simp: list_all_iff)
      from False F2 d notin l' show ?thesis
        by (simp add: visitLink_def a st Let_def linksInv_def del: Contains.simps)
    qed
  qed
qed

lemma linksInv_fold: "linksInv st \<Longrightarrow> linksInv (fold visitLink as st)"
  by (induction as arbitrary: st) (simp_all add: linksInv_visitLink)

lemma pagesLoop_inv:
  "linksInv (posts, seen) \<Longrightarrow> pagesLoop w fuel page posts seen = Some (ps, e)
     \<Longrightarrow> \<exists>seen'. linksInv (ps, seen')"
proof (induction fuel arbitrary: page posts seen)
  case 0
  then show ?case by simp
next
  case (Suc fuel)
  obtain html fe where f: "fetchPage w (pageURL page) = (html, fe)"
    by (cases "fetchPage w (pageURL page)")
  show ?case
  proof (cases fe)
    case (Some x)
    with Suc.prems f have "ps = posts" by simp
    with Suc.prems show ?thesis by blast
  next
    case None
    show ?thesis
    proof (cases "parseDoc w html")
      case (Inl x)
      with Suc.prems f None have "ps = posts" by simp
      with Suc.prems show ?thesis by blast
    next
      case (Inr doc)
      obtain posts' seen' where fo: "fold visitLink (articleLinks doc) (posts, seen) = (posts', seen')"
        by (cases "fold visitLink (articleLinks doc) (posts, seen)")
      have inv': "linksInv (posts', seen')"
        using linksInv_fold [OF Suc.prems(1), of "articleLinks doc"] fo by simp
      show ?thesis
      proof (cases "nextButtons doc = [] \<or> hd (nextButtons doc)")
        case True
        with Suc.prems f None Inr fo have "ps = posts'" by (auto split: if_splits)
        with inv' show ?thesis by blast
      next
        case False
        with Suc.prems f None Inr fo
        have "pagesLoop w fuel (page + 1) posts' seen' = Some (ps, e)" by simp
        with inv' show ?thesis by (rule Suc.IH)
      qed
    qed
  qed
qed

lemma getAllBlogLinks_inv:
  "getAllBlogLinks w fuel = Some (ps, e) \<Longrightarrow>
     distinct (map Slug ps) \<and> list_all (\<lambda>p. Slug p \<noteq> [] \<and> \<not> Contains (Slug p) ''?'') ps"
proof -
  assume a: "getAllBlogLinks w fuel = Some (ps, e)"
  have "linksInv ([], (\<lambda>_. False))" by (simp add: linksInv_def)
  with a obtain seen' where "linksInv (ps, seen')"
    unfolding getAllBlogLinks_def using pagesLoop_inv by blast
  then show ?thesis by (auto simp: linksInv_def list_all_iff)
qed

lemma pagesLoop_returns:
  "lastPage w (page + k) \<Longrightarrow> k < fuel \<Longrightarrow> pagesLoop w fuel page posts seen \<noteq> None"
proof (induction k arbitrary: fuel page posts seen)
  case 0
  then obtain n where "fuel = Suc n" by (cases fuel) auto
  with 0 show ?case
    by (auto simp: lastPage_def split: prod.splits option.splits sum.splits)
next
  case (Suc k)
  then obtain n where n: "fuel = Suc n" "k < n" by (cases fuel) auto
  from Suc.prems have "lastPage w (Suc page + k)" by simp
  from Suc.IH [OF this n(2)] have "\<And>posts seen. pagesLoop w n (page + 1) posts seen \<noteq> None"
    by simp
  then show ?case
    by (auto simp: n split: prod.splits option.splits sum.splits)
qed

lemma getAllBlogLinks_returns:
  "lastPage w (Suc k) \<Longrightarrow> k < fuel \<Longrightarrow> \<exists>r. getAllBlogLinks w fuel = Some r"
  using pagesLoop_returns [of w 1 k fuel "[]" "\<lambda>_. False"] by (auto simp: getAllBlogLinks_def)


lemma siteOK_listing: "getAllBlogLinks siteOK 5 = Some ([postA, postB], None)"
  by code_simp


lemma sitePage2Down_listing:
  "getAllBlogLinks sitePage2Down 5 = Some ([postA], Some (PageError 2 (TransportError ''timeout'')))"
  by code_simp

text \<open>
  Claim C8. Every reference that a discovery pass returns has a slug that is not empty
  and holds no \<open>?\<close>, and no two references of the pass share a slug; this holds for
  the references returned with an error as well. The pass returns as soon as a page
  cannot be had or has no enabled next button.
\<close>

theorem discovered_slugs_distinct:
  "(getAllBlogLinks w fuel = Some (ps, e)
      \<longrightarrow> distinct (map Slug ps)
          \<and> (\<forall>p \<in> set ps. Slug p \<noteq> [] \<and> \<not> Contains (Slug p) ''?''))
   \<and> (lastPage w (Suc k) \<and> k < fuel \<longrightarrow> (\<exists>r. getAllBlogLinks w fuel = Some r))"
proof -
  have "distinct (map Slug ps) \<and> (\<forall>p \<in> set ps. Slug p \<noteq> [] \<and> \<not> Contains (Slug p) ''?'')"
    if "getAllBlogLinks w fuel = Some (ps, e)"
    using getAllBlogLinks_inv [OF that] by (simp add: list_all_iff del: Contains.simps)
  moreover have "\<exists>r. getAllBlogLinks w fuel = Some r" if "lastPage w (Suc k) \<and> k < fuel"
    using that getAllBlogLinks_returns by blast
  ultimately show ?thesis by blast
qed

text \<open>
  Claim C8, at a concrete input: the small site, where \<open>post-a\<close> is linked twice and a
  category link stands between; discovery returns \<open>post-a\<close> and \<open>post-b\<close>, once
  each.
\<close>

theorem discovered_slugs_distinct_witness:
  "getAllBlogLinks siteOK 5 = Some ([postA, postB], None)
   \<and> distinct (map Slug [postA, postB])
   \<and> Slug postA \<noteq> [] \<and> Slug postB \<noteq> []
   \<and> \<not> Contains (Slug postA) ''?'' \<and> \<not> Contains (Slug postB) ''?''"
proof -
  have l: "lastPage siteOK (Suc 1) \<and> 1 < (5::nat)" by code_simp
  from discovered_slugs_distinct [of siteOK 5 "[postA, postB]" None 1] siteOK_listing l
  show ?thesis by (simp del: Contains.simps)
qed

section \<open>Scraping all articles: properties\<close>

lemma slug_download: "slug (downloadAndConvertPost w p) = Slug p"
  by (simp add: downloadAndConvertPost_def errorResult_def Let_def
      split: prod.splits option.splits sum.splits)



lemma fold_collect_val:
  "fold keep rs acc s = Some x
     \<Longrightarrow> acc s = Some x \<or> (x \<in> set rs \<and> err x = None \<and> slug x = s)"
proof (induction rs arbitrary: acc)
  case Nil
  then show ?case by simp
next
  case (Cons r rs)
  from Cons.prems have "fold keep rs (keep r acc) s = Some x" by simp
  from Cons.IH [OF this] show ?case
    by (auto simp: keep_def split: if_splits)
qed

lemma collect_val: "collect rs s = Some x \<Longrightarrow> x \<in> set rs \<and> err x = None \<and> slug x = s"
  using fold_collect_val [of rs Map.empty s x] by (simp add: collect_def)




lemma scrapeAll_val:
  assumes "fairArrival w" "scrapeAll w posts s = Some x"
  shows "\<exists>p \<in> set posts. x = downloadAndConvertPost w p \<and> err x = None \<and> Slug p = s"
proof -
  from assms(1) have "set (arrive w (map (downloadAndConvertPost w) posts))
      = set (map (downloadAndConvertPost w) posts)"
    unfolding fairArrival_def by (metis set_mset_mset)
  with collect_val [of "arrive w (map (downloadAndConvertPost w) posts)" s x] assms(2)
  show ?thesis by (auto simp: scrapeAll_def slug_download)
qed


section \<open>Main: properties\<close>

lemma selectNew_filter: "selectNew cp ps acc = acc @ filter (\<lambda>p. cp (Slug p) = None) ps"
  by (induction ps arbitrary: acc) simp_all

lemma main_discovered:
  assumes "mkdirOK w" "getAllBlogLinks w fuel = Some (allPosts, None)" "allPosts \<noteq> []"
    and "plan force (loadCheckpoint (checkpointFile d)) allPosts = (toScrape, cp1)"
  shows "\<exists>r. main w fuel force now d = Some r
      \<and> fetched r = map URL toScrape
      \<and> ledger r = (if toScrape = [] then cp1
                     else updateCheckpoint cp1 (scrapeAll w toScrape) now)
      \<and> checkpointFile (files r) =
          (if toScrape = [] then checkpointFile d
           else checkpointFile
                  (saveCheckpoint w (updateCheckpoint cp1 (scrapeAll w toScrape) now) d))
      \<and> (toScrape = [] \<longrightarrow> exit r = UpToDate \<and> files r = d)
      \<and> (toScrape \<noteq> [] \<longrightarrow>
            (exit r, files r, emitted r)
              = writeArchive w force allPosts (scrapeAll w toScrape)
                  (saveCheckpoint w (updateCheckpoint cp1 (scrapeAll w toScrape) now) d))"
  using assms
  by (simp add: main_def Let_def writeArchive_def saveCheckpoint_def split: prod.splits)

lemma main_listing_error:
  assumes "mkdirOK w" "getAllBlogLinks w fuel = Some (posts, Some e)"
  shows "main w fuel force now d =
     Some \<lparr>exit = Fatal ''listing'', files = d,
           ledger = loadCheckpoint (checkpointFile d), fetched = [], emitted = []\<rparr>"
  using assms by (simp add: main_def Let_def)

lemma updateCheckpoint_dom: "dom (updateCheckpoint cp scraped now) = dom cp \<union> dom scraped"
  by (auto simp: updateCheckpoint_def split: option.splits)



lemma plan_False: "plan False cp allPosts = (filter (\<lambda>p. cp (Slug p) = None) allPosts, cp)"
  by (simp add: plan_def selectNew_filter)

lemma plan_True: "plan True cp allPosts = (allPosts, Map.empty)"
  by (simp add: plan_def)


lemma sectionsOf_set:
  "set (sectionsOf ps scraped) = {x. \<exists>p \<in> set ps. scraped (Slug p) = Some x}"
  by (induction ps) (auto split: option.splits)





text \<open>
  Claim C1, as amended. When a listing page cannot be fetched, discovery returns the
  references gathered from the pages before it together with an error that names the
  page. The run does not go on with them: \<open>main\<close> treats every error of discovery as
  fatal, on a later page as on the first; it fetches no article and leaves the files as
  they are.
\<close>

theorem listing_error_is_fatal:
  "(fetchPage w (pageURL page) = (html, Some e)
      \<longrightarrow> pagesLoop w (Suc n) page posts seen = Some (posts, Some (PageError page e)))
   \<and> (mkdirOK w \<and> getAllBlogLinks w fuel = Some (ps, Some e')
      \<longrightarrow> main w fuel force now d =
            Some \<lparr>exit = Fatal ''listing'', files = d,
                  ledger = loadCheckpoint (checkpointFile d), fetched = [], emitted = []\<rparr>)"
  by (simp add: main_listing_error)

text \<open>
  Claim C1 as amended, at a concrete input: the small site with its second listing page
  timing out.
\<close>

theorem listing_error_is_fatal_witness:
  "pagesLoop sitePage2Down (Suc 0) 2 [postA] (\<lambda>_. False)
       = Some ([postA], Some (PageError 2 (TransportError ''timeout'')))
   \<and> main sitePage2Down 5 False ''2024-06-01T00:00:00Z'' noFiles =
        Some \<lparr>exit = Fatal ''listing'', files = noFiles,
              ledger = loadCheckpoint (checkpointFile noFiles), fetched = [], emitted = []\<rparr>"
proof -
  have h1: "fetchPage sitePage2Down (pageURL 2) = ([], Some (TransportError ''timeout''))"
    by code_simp
  have h2: "mkdirOK sitePage2Down" by (simp add: sitePage2Down_def demoWorld_def)
  from listing_error_is_fatal [of sitePage2Down 2 "[]" "TransportError ''timeout''" 0 "[postA]"
      "\<lambda>_. False" 5 "[postA]" "PageError 2 (TransportError ''timeout'')" False
      "''2024-06-01T00:00:00Z''" noFiles]
    h1 h2 sitePage2Down_listing
  show ?thesis by blast
qed

text \<open>
  Claim C1 as stated fails: on the small site with its second listing page timing out,
  discovery returns \<open>post-a\<close> with the error of page 2, and the run ends with the fatal
  error: no article is fetched and no archive is written.
\<close>

theorem later_page_error_aborts_run:
  "getAllBlogLinks sitePage2Down 5
       = Some ([postA], Some (PageError 2 (TransportError ''timeout'')))
   \<and> map_option exit (main sitePage2Down 5 False ''2024-06-01T00:00:00Z'' noFiles)
       = Some (Fatal ''listing'')
   \<and> map_option fetched (main sitePage2Down 5 False ''2024-06-01T00:00:00Z'' noFiles)
       = Some []
   \<and> map_option (\<lambda>r. archiveFile (files r))
        (main sitePage2Down 5 False ''2024-06-01T00:00:00Z'' noFiles) = Some None"
  by code_simp

text \<open>
  Claim C2. Without the force flag the posts selected for scraping are the discovered
  posts whose slug is not in the ledger, in listing order, the ledger is kept, and no
  selected slug is in the ledger. With the flag every discovered post is selected and the
  ledger is reset to empty. A run fetches exactly the selected posts, and under the flag
  its ledger holds this run's results only.
\<close>

theorem plan_incremental:
  "plan False cp allPosts = (filter (\<lambda>p. cp (Slug p) = None) allPosts, cp)
   \<and> (\<forall>p \<in> set (fst (plan False cp allPosts)). Slug p \<notin> dom cp)
   \<and> plan True cp allPosts = (allPosts, Map.empty)
   \<and> (mkdirOK w \<and> getAllBlogLinks w fuel = Some (allPosts, None) \<and> allPosts \<noteq> []
      \<longrightarrow> (\<exists>r. main w fuel force now d = Some r
             \<and> fetched r =
                 map URL (fst (plan force (loadCheckpoint (checkpointFile d)) allPosts))
             \<and> (force \<longrightarrow> ledger r = updateCheckpoint Map.empty (scrapeAll w allPosts) now)))"
proof (intro conjI impI)
  show "plan False cp allPosts = (filter (\<lambda>p. cp (Slug p) = None) allPosts, cp)"
    by (rule plan_False)
  show "\<forall>p \<in> set (fst (plan False cp allPosts)). Slug p \<notin> dom cp"
    by (auto simp: plan_False)
  show "plan True cp allPosts = (allPosts, Map.empty)" by (rule plan_True)
next
  assume a: "mkdirOK w \<and> getAllBlogLinks w fuel = Some (allPosts, None) \<and> allPosts \<noteq> []"
  obtain toScrape cp1 where pl:
    "plan force (loadCheckpoint (checkpointFile d)) allPosts = (toScrape, cp1)"
    by (cases "plan force (loadCheckpoint (checkpointFile d)) allPosts")
  from a main_discovered [of w fuel allPosts force d toScrape cp1 now] pl
  obtain r where r: "main w fuel force now d = Some r" "fetched r = map URL toScrape"
    "ledger r = (if toScrape = [] then cp1 else updateCheckpoint cp1 (scrapeAll w toScrape) now)"
    by blast
  from pl a have "force \<longrightarrow> toScrape = allPosts \<and> cp1 = Map.empty \<and> toScrape \<noteq> []"
    by (auto simp: plan_True)
  with r pl show "\<exists>r. main w fuel force now d = Some r
             \<and> fetched r =
                 map URL (fst (plan force (loadCheckpoint (checkpointFile d)) allPosts))
             \<and> (force \<longrightarrow> ledger r = updateCheckpoint Map.empty (scrapeAll w allPosts) now)"
    by auto
qed

text \<open>
  Claim C2, at the example of the specification: the ledger holds \<open>post-a\<close>, the listing
  is \<open>post-a\<close>, \<open>post-b\<close>; without the flag only \<open>post-b\<close> is selected and fetched.
\<close>

theorem plan_incremental_witness:
  "map Slug (fst (plan False ledgerA [postA, postB])) = [''post-b'']
   \<and> snd (plan False ledgerA [postA, postB]) = ledgerA
   \<and> plan True ledgerA [postA, postB] = ([postA, postB], Map.empty)
   \<and> (\<exists>r. main siteOK 5 False ''2024-06-01T00:00:00Z''
            \<lparr>checkpointFile = Parsed ledgerA False, archiveFile = Some archiveHeader\<rparr> = Some r
          \<and> fetched r = [''https://chainguard.dev/unchained/post-b''])"
proof -
  have h: "mkdirOK siteOK \<and> getAllBlogLinks siteOK 5 = Some ([postA, postB], None)
      \<and> [postA, postB] \<noteq> []"
    by (simp add: siteOK_listing) (simp add: siteOK_def demoWorld_def)
  note t = plan_incremental [of ledgerA "[postA, postB]" siteOK 5 False "''2024-06-01T00:00:00Z''"
      "\<lparr>checkpointFile = Parsed ledgerA False, archiveFile = Some archiveHeader\<rparr>"]
  have f: "filter (\<lambda>p. ledgerA (Slug p) = None) [postA, postB] = [postB]"
    by (simp add: ledgerA_def postA_def postB_def)
  from t f have c1: "plan False ledgerA [postA, postB] = ([postB], ledgerA)" by simp
  from t have c3: "plan True ledgerA [postA, postB] = ([postA, postB], Map.empty)" by blast
  have ld: "loadCheckpoint (checkpointFile
      \<lparr>checkpointFile = Parsed ledgerA False, archiveFile = Some archiveHeader\<rparr>) = ledgerA"
    by (simp add: loadCheckpoint_def)
  from t h obtain r where r: "main siteOK 5 False ''2024-06-01T00:00:00Z''
      \<lparr>checkpointFile = Parsed ledgerA False, archiveFile = Some archiveHeader\<rparr> = Some r"
    "fetched r = map URL (fst (plan False (loadCheckpoint (checkpointFile
      \<lparr>checkpointFile = Parsed ledgerA False, archiveFile = Some archiveHeader\<rparr>))
      [postA, postB]))"
    by blast
  from r(2) have "fetched r = [''https://chainguard.dev/unchained/post-b'']"
    unfolding ld c1 by (simp add: postB_def)
  with r(1) c1 c3 show ?thesis by (simp add: postB_def)
qed



text \<open>
  Ledger and archive after a run under the force flag: the slugs of the ledger are the
  slugs of the sections written.
\<close>

lemma force_rebuild_consistent:
  assumes "fairArrival w" "mkdirOK w" "getAllBlogLinks w fuel = Some (allPosts, None)"
    and "main w fuel True now d = Some r" "exit r = Rebuilt n"
  shows "dom (ledger r) = slug ` set (emitted r)"
proof -
  from assms have ne: "allPosts \<noteq> []" by (auto simp: main_def Let_def)
  let ?S = "scrapeAll w allPosts"
  from main_discovered [OF assms(2) assms(3) ne plan_True, of now d] assms(4) ne
  have led: "ledger r = updateCheckpoint Map.empty ?S now"
    and wa: "(exit r, files r, emitted r)
       = writeArchive w True allPosts ?S (saveCheckpoint w (updateCheckpoint Map.empty ?S now) d)"
    by auto
  from wa assms(5) have em: "emitted r = sectionsOf allPosts ?S"
    by (auto simp: writeArchive_def Let_def split: if_splits)
  have "dom (ledger r) = dom ?S" by (simp add: led updateCheckpoint_dom)
  also have "\<dots> = slug ` set (sectionsOf allPosts ?S)"
  proof (rule set_eqI, rule iffI)
    fix s assume "s \<in> dom ?S"
    then obtain x where x: "?S s = Some x" by auto
    from scrapeAll_val [OF assms(1) x] obtain q where
      "q \<in> set allPosts" "x = downloadAndConvertPost w q" "Slug q = s" by auto
    with x have "x \<in> set (sectionsOf allPosts ?S)" "slug x = s"
      by (auto simp: sectionsOf_set slug_download)
    then show "s \<in> slug ` set (sectionsOf allPosts ?S)" by auto
  next
    fix s assume "s \<in> slug ` set (sectionsOf allPosts ?S)"
    then obtain x q where "q \<in> set allPosts" "?S (Slug q) = Some x" "s = slug x"
      by (auto simp: sectionsOf_set)
    moreover from this scrapeAll_val [OF assms(1), of allPosts "Slug q" x]
    have "slug x = Slug q" by (auto simp: slug_download)
    ultimately show "s \<in> dom ?S" by auto
  qed
  finally show ?thesis by (simp add: em)
qed

text \<open>
  Claim C3 fails for a rebuild that is entered because the archive file does not exist
  while the checkpoint file does. On the small site, with \<open>post-a\<close> in the ledger and no
  archive, the run without the flag scrapes \<open>post-b\<close> only and rebuilds the archive with
  the single section \<open>post-b\<close>, while the ledger holds \<open>post-a\<close> and \<open>post-b\<close>.
\<close>

theorem rebuild_without_archive_misses_known:
  "map_option (\<lambda>r. (exit r, map slug (emitted r), ledger r ''post-a'' \<noteq> None,
                    ledger r ''post-b'' \<noteq> None, archiveFile (files r)))
     (main siteOK 5 False ''2024-06-01T00:00:00Z''
        \<lparr>checkpointFile = Parsed ledgerA False, archiveFile = None\<rparr>)
   = Some (Rebuilt 1, [''post-b''], True, True,
       Some (archiveHeader
         @ ''## Post B'' @ [nl, nl]
         @ ''*Source: https://chainguard.dev/unchained/post-b | 2024-01-15T10:00:00Z*'' @ [nl, nl]
         @ ''Body B'' @ [nl, nl] @ ''---'' @ [nl, nl]))"
  by code_simp







end
